theory Spec2Isabelle
  imports Complex_Main "HOL-Library.AList"
begin

section \<open>Python values and errors\<close>

text \<open>
  The planner and the actor are Python code over untyped message logs: a log is a list
  whose elements are usually dicts with the keys \<open>role\<close> and \<open>content\<close>, but the code
  also meets plain strings (the filtered planner view is a list of strings), anthropic
  \<open>TextBlock\<close> objects and nested tool-result dicts. The values the code can meet are
  therefore one universal type. A dict is an association list in insertion order
  (\<open>map_of\<close> reads a key, \<open>AList.update\<close> assigns one and keeps its position, as a
  Python dict does). The values are those of JSON-shaped API messages (no tuples, sets or
  other classes). Values are compared structurally: two dicts of a log are taken to be
  distinct objects (no dict object occurs twice in a log).
\<close>

datatype pyval =
    PNone
  | PBool bool
  | PInt int
  | PStr string
  | PTextBlock string
  | PList "pyval list"
  | PDict "(string \<times> pyval) list"

datatype error =
    AttributeError
  | KeyError
  | IndexError
  | TypeError
  | ZeroDivisionError
  | ValueError string
  | JSONDecodeError
  | ParseError
  | Unmodelled string
  | ExternalError string

definition isinstance_list :: "pyval \<Rightarrow> bool" where
  "isinstance_list v = (case v of PList _ \<Rightarrow> True | _ \<Rightarrow> False)"

definition isinstance_dict :: "pyval \<Rightarrow> bool" where
  "isinstance_dict v = (case v of PDict _ \<Rightarrow> True | _ \<Rightarrow> False)"

text \<open>\<open>d.get(k)\<close> on a value that is known to be a dict; \<open>None\<close> stands for Python's \<open>None\<close>.\<close>

definition dict_get :: "pyval \<Rightarrow> string \<Rightarrow> pyval option" where
  "dict_get v k = (case v of PDict d \<Rightarrow> map_of d k | _ \<Rightarrow> None)"

text \<open>\<open>d[k] = x\<close> on a dict.\<close>

definition dict_set :: "pyval \<Rightarrow> string \<Rightarrow> pyval \<Rightarrow> pyval" where
  "dict_set v k x = (case v of PDict d \<Rightarrow> PDict (AList.update k x d) | _ \<Rightarrow> v)"

text \<open>
  \<open>message["content"]\<close>: a dict raises \<open>KeyError\<close> on a missing key; a string or a
  list cannot be indexed by a string and every other value is not subscriptable
  (\<open>TypeError\<close>).
\<close>

definition subscript_content :: "pyval \<Rightarrow> error + pyval" where
  "subscript_content m =
     (case m of
        PDict d \<Rightarrow> (case map_of d ''content'' of None \<Rightarrow> Inl KeyError | Some c \<Rightarrow> Inr c)
      | _ \<Rightarrow> Inl TypeError)"

text \<open>
  \<open>for x in v\<close>: a list yields its elements, a string its characters, a dict its keys,
  a \<open>TextBlock\<close> (a pydantic model) its fields as (name, value) pairs, written here as
  two-element lists; \<open>None\<close>, booleans and integers are not iterable.
\<close>

definition py_iter :: "pyval \<Rightarrow> error + pyval list" where
  "py_iter v =
     (case v of
        PList xs \<Rightarrow> Inr xs
      | PStr s \<Rightarrow> Inr (map (\<lambda>c. PStr [c]) s)
      | PDict d \<Rightarrow> Inr (map (\<lambda>kv. PStr (fst kv)) d)
      | PTextBlock t \<Rightarrow> Inr [PList [PStr ''text'', PStr t], PList [PStr ''type'', PStr ''text'']]
      | _ \<Rightarrow> Inl TypeError)"

section \<open>History filter: \<open>_message_filter_callback\<close>\<close>

text \<open>
  The body of the \<open>for\<close> loop on one message. The result is the message as the body
  leaves it (a non-list content is wrapped into a one-element list in place) and what
  the body appends to \<open>filtered_list\<close>; \<open>Inl\<close> is the exception the body raises.
\<close>

definition filter_message :: "pyval \<Rightarrow> error + (pyval \<times> pyval list)" where
  "filter_message msg =
     (case msg of
        PDict d \<Rightarrow>
          if map_of d ''role'' = Some (PStr ''user'') then
            (case map_of d ''content'' of
               None \<Rightarrow> Inl KeyError
             | Some c \<Rightarrow>
                 (case c of
                    PList [] \<Rightarrow> Inl IndexError
                  | PList (PTextBlock t # _) \<Rightarrow> Inr (msg, [PStr t])
                  | PList (PStr s # _) \<Rightarrow> Inr (msg, [PStr s])
                  | PList (_ # _) \<Rightarrow> Inr (msg, [])
                  | PTextBlock t \<Rightarrow> Inr (dict_set msg ''content'' (PList [c]), [PStr t])
                  | PStr s \<Rightarrow> Inr (dict_set msg ''content'' (PList [c]), [PStr s])
                  | _ \<Rightarrow> Inr (dict_set msg ''content'' (PList [c]), [])))
          else Inr (msg, [])
      | _ \<Rightarrow> Inl AttributeError)"

text \<open>
  The loop inside the single \<open>try\<close>: an exception in the body leaves the loop, the
  handler prints it, and the function returns what \<open>filtered_list\<close> holds by then.
  The first component is the log as the loop leaves it.
\<close>

fun filter_loop :: "pyval list \<Rightarrow> pyval list \<Rightarrow> pyval list \<times> pyval list" where
  "filter_loop [] filtered_list = ([], filtered_list)"
| "filter_loop (msg # rest) filtered_list =
     (case filter_message msg of
        Inl e \<Rightarrow> (msg # rest, filtered_list)
      | Inr (msg', out) \<Rightarrow>
          (case filter_loop rest (filtered_list @ out) of
             (rest', fl) \<Rightarrow> (msg' # rest', fl)))"

definition message_filter_callback :: "pyval list \<Rightarrow> pyval list \<times> pyval list" where
  "message_filter_callback messages = filter_loop messages []"

section \<open>Image pruning: \<open>_maybe_filter_to_n_most_recent_images\<close>\<close>

definition is_tool_result :: "pyval \<Rightarrow> bool" where
  "is_tool_result item = (isinstance_dict item \<and> dict_get item ''type'' = Some (PStr ''tool_result''))"

definition is_image :: "pyval \<Rightarrow> bool" where
  "is_image content = (isinstance_dict content \<and> dict_get content ''type'' = Some (PStr ''image''))"

text \<open>\<open>message["content"] if isinstance(message["content"], list) else []\<close>\<close>

definition message_items :: "pyval \<Rightarrow> error + pyval list" where
  "message_items message =
     (case subscript_content message of
        Inl e \<Rightarrow> Inl e
      | Inr c \<Rightarrow> (case c of PList items \<Rightarrow> Inr items | _ \<Rightarrow> Inr []))"

text \<open>The comprehension that collects the tool-result dicts of the log, in log order.\<close>

fun tool_result_blocks :: "pyval list \<Rightarrow> error + pyval list" where
  "tool_result_blocks [] = Inr []"
| "tool_result_blocks (message # rest) =
     (case message_items message of
        Inl e \<Rightarrow> Inl e
      | Inr items \<Rightarrow>
          (case tool_result_blocks rest of
             Inl e \<Rightarrow> Inl e
           | Inr blocks \<Rightarrow> Inr (filter is_tool_result items @ blocks)))"

text \<open>\<open>tool_result.get("content", [])\<close>\<close>

definition get_content_or_empty :: "pyval \<Rightarrow> pyval" where
  "get_content_or_empty tool_result =
     (case dict_get tool_result ''content'' of None \<Rightarrow> PList [] | Some c \<Rightarrow> c)"

text \<open>The generator under \<open>sum\<close>: one for every image dict that iterating the content yields.\<close>

fun total_images :: "pyval list \<Rightarrow> error + int" where
  "total_images [] = Inr 0"
| "total_images (tool_result # rest) =
     (case py_iter (get_content_or_empty tool_result) of
        Inl e \<Rightarrow> Inl e
      | Inr contents \<Rightarrow>
          (case total_images rest of
             Inl e \<Rightarrow> Inl e
           | Inr n \<Rightarrow> Inr (int (length (filter is_image contents)) + n)))"

text \<open>
  The inner loop over one content list: the counter \<open>images_to_remove\<close> and the list
  \<open>new_content\<close> that it builds.
\<close>

fun prune_content :: "int \<Rightarrow> pyval list \<Rightarrow> int \<times> pyval list" where
  "prune_content images_to_remove [] = (images_to_remove, [])"
| "prune_content images_to_remove (content # rest) =
     (if is_image content \<and> images_to_remove > 0
      then prune_content (images_to_remove - 1) rest
      else (case prune_content images_to_remove rest of
              (r, new_content) \<Rightarrow> (r, content # new_content)))"

text \<open>The outer loop over the collected tool results; only a list content is rewritten.\<close>

fun prune_blocks :: "int \<Rightarrow> pyval list \<Rightarrow> int \<times> pyval list" where
  "prune_blocks images_to_remove [] = (images_to_remove, [])"
| "prune_blocks images_to_remove (tool_result # rest) =
     (case dict_get tool_result ''content'' of
        Some (PList contents) \<Rightarrow>
          (case prune_content images_to_remove contents of
             (r, new_content) \<Rightarrow>
               (case prune_blocks r rest of
                  (r', rest') \<Rightarrow> (r', dict_set tool_result ''content'' (PList new_content) # rest')))
      | _ \<Rightarrow>
          (case prune_blocks images_to_remove rest of
             (r', rest') \<Rightarrow> (r', tool_result # rest')))"

text \<open>
  The collected tool results are the dict objects of the log themselves, so assigning
  \<open>tool_result["content"]\<close> changes the log. With values instead of references this is a
  write-back: the i-th tool-result dict met in log order is replaced by the i-th
  rewritten one.
\<close>

fun write_back_items :: "pyval list \<Rightarrow> pyval list \<Rightarrow> pyval list \<times> pyval list" where
  "write_back_items [] blocks = ([], blocks)"
| "write_back_items (item # items) blocks =
     (if is_tool_result item then
        (case blocks of
           [] \<Rightarrow> (item # items, [])
         | b # bs \<Rightarrow> (case write_back_items items bs of (items', bs') \<Rightarrow> (b # items', bs')))
      else (case write_back_items items blocks of (items', bs') \<Rightarrow> (item # items', bs')))"

fun write_back :: "pyval list \<Rightarrow> pyval list \<Rightarrow> pyval list" where
  "write_back [] blocks = []"
| "write_back (message # rest) blocks =
     (case dict_get message ''content'' of
        Some (PList items) \<Rightarrow>
          (case write_back_items items blocks of
             (items', bs') \<Rightarrow> dict_set message ''content'' (PList items') # write_back rest bs')
      | _ \<Rightarrow> message # write_back rest blocks)"

definition maybe_filter_to_n_most_recent_images ::
    "pyval list \<Rightarrow> int option \<Rightarrow> int \<Rightarrow> error + pyval list" where
  "maybe_filter_to_n_most_recent_images messages images_to_keep min_removal_threshold =
     (case images_to_keep of
        None \<Rightarrow> Inr messages
      | Some keep \<Rightarrow>
          (case tool_result_blocks messages of
             Inl e \<Rightarrow> Inl e
           | Inr blocks \<Rightarrow>
               (case total_images blocks of
                  Inl e \<Rightarrow> Inl e
                | Inr n_images \<Rightarrow>
                    if min_removal_threshold = 0 then Inl ZeroDivisionError
                    else
                      Inr (write_back messages
                             (snd (prune_blocks
                                     ((n_images - keep) - (n_images - keep) mod min_removal_threshold)
                                     blocks))))))"

section \<open>Observations on a log\<close>

text \<open>
  What the properties below speak about: the list content of a tool result, the image
  items of the collected tool results in traversal order (oldest first), and the
  items of a tool result that are not images (text, errors).
\<close>

definition block_contents :: "pyval \<Rightarrow> pyval list" where
  "block_contents b = (case dict_get b ''content'' of Some (PList cs) \<Rightarrow> cs | _ \<Rightarrow> [])"

definition images_of :: "pyval list \<Rightarrow> pyval list" where
  "images_of blocks = concat (map (\<lambda>b. filter is_image (block_contents b)) blocks)"

definition non_images_of :: "pyval \<Rightarrow> pyval list" where
  "non_images_of b = filter (\<lambda>c. \<not> is_image c) (block_contents b)"

section \<open>Example data\<close>

definition example_image :: pyval where
  "example_image = PDict [(''type'', PStr ''image''), (''source'', PStr ''png'')]"

definition example_text :: pyval where
  "example_text = PDict [(''type'', PStr ''text''), (''text'', PStr ''done'')]"

definition example_tool_result :: "pyval list \<Rightarrow> pyval" where
  "example_tool_result contents =
     PDict [(''type'', PStr ''tool_result''), (''content'', PList contents), (''is_error'', PBool False)]"

definition example_log :: "pyval list" where
  "example_log =
     [PDict [(''role'', PStr ''user''), (''content'', PList [PTextBlock ''open settings''])],
      PDict [(''role'', PStr ''user''),
             (''content'', PList [example_tool_result (example_text # replicate 7 example_image)])],
      PDict [(''role'', PStr ''assistant''), (''content'', PStr ''ok'')],
      PDict [(''role'', PStr ''user''),
             (''content'', PList [example_tool_result (replicate 5 example_image @ [example_text])])]]"

section \<open>History filter: observations and example messages\<close>

definition raises :: "pyval \<Rightarrow> bool" where
  "raises msg = (case filter_message msg of Inl _ \<Rightarrow> True | Inr _ \<Rightarrow> False)"

definition kept_text :: "pyval \<Rightarrow> pyval list" where
  "kept_text msg = (case filter_message msg of Inl _ \<Rightarrow> [] | Inr (_, out) \<Rightarrow> out)"

definition left_as :: "pyval \<Rightarrow> pyval" where
  "left_as msg = (case filter_message msg of Inl _ \<Rightarrow> msg | Inr (msg', _) \<Rightarrow> msg')"

definition empty_user_message :: pyval where
  "empty_user_message = PDict [(''role'', PStr ''user''), (''content'', PList [])]"

definition plain_user_message :: pyval where
  "plain_user_message = PDict [(''role'', PStr ''user''), (''content'', PStr ''open settings'')]"

section \<open>The planner: \<open>APIVLMPlanner\<close>\<close>

text \<open>
  \<open>APIProvider\<close> is declared in \<open>computer_use_demo/loop.py\<close>, which is not among the
  sources. The planner compares \<open>self.provider\<close> with four of its members; they are
  taken as distinct values, and every other provider value is \<open>OtherProvider\<close>.
\<close>

datatype api_provider = OPENAI | OPENROUTER | QWEN | SSH | OtherProvider string

text \<open>
  The fields \<open>__init__\<close> sets. \<open>total_cost\<close> is a Python float; it is kept here as an
  exact rational, so rounding is not modelled.
\<close>

record planner =
  model :: string
  provider :: api_provider
  system_prompt_suffix :: string
  api_key :: string
  max_tokens :: int
  only_n_most_recent_images :: "int option"
  selected_screen :: int
  system_prompt :: string
  base_url :: "string option"
  print_usage :: bool
  total_token_usage :: int
  total_cost :: rat

text \<open>The display-name table of \<open>__init__\<close>.\<close>

definition resolve_model :: "string \<Rightarrow> error + string" where
  "resolve_model m =
     (if m = ''gpt-4o'' then Inr ''gpt-4o-2024-11-20''
      else if m = ''gpt-4o-mini'' then Inr ''gpt-4o-mini''
      else if m = ''qwen2-vl-max'' then Inr ''qwen2-vl-max''
      else if m = ''qwen2-vl-2b (ssh)'' then Inr ''Qwen2-VL-2B-Instruct''
      else if m = ''qwen2-vl-7b (ssh)'' then Inr ''Qwen2-VL-7B-Instruct''
      else if m = ''qwen2.5-vl-7b (ssh)'' then Inr ''Qwen2.5-VL-7B-Instruct''
      else Inl (ValueError (''Model '' @ m @ '' not supported'')))"

text \<open>
  \<open>__init__\<close>; \<open>base_prompt\<close> is what \<open>_get_system_prompt\<close> returns (it depends on
  \<open>platform.system()\<close>).
\<close>

definition planner_init ::
    "string \<Rightarrow> api_provider \<Rightarrow> string \<Rightarrow> string \<Rightarrow> int \<Rightarrow> int option \<Rightarrow> int \<Rightarrow> bool \<Rightarrow>
     string option \<Rightarrow> string \<Rightarrow> error + planner" where
  "planner_init model_name prov suffix key max_tok only_n screen usage url base_prompt =
     (case resolve_model model_name of
        Inl e \<Rightarrow> Inl e
      | Inr m \<Rightarrow>
          Inr \<lparr>model = m, provider = prov, system_prompt_suffix = suffix, api_key = key,
               max_tokens = max_tok, only_n_most_recent_images = only_n,
               selected_screen = screen, system_prompt = base_prompt @ suffix,
               base_url = url, print_usage = usage, total_token_usage = 0, total_cost = 0\<rparr>)"

text \<open>
  What a call does to the outside, in order: the screenshot, the observer callback, and
  the request to a model backend with the arguments the branch passes (messages, system
  prompt, model id, then key or host and port).
\<close>

datatype event =
    GetScreenshot int
  | OutputCallback string
  | RunOaiInterleaved "pyval list" string string string int "string option"
  | RunQwen "pyval list" string string string int
  | RunSshLlmInterleaved "pyval list" string string string int int


text \<open>
  What the outside answers during one call. The screenshot service and \<open>encode_image\<close>
  are local collaborators and are taken to return; the model backend either raises or
  returns the raw text and its token count. \<open>colorful_text_vlm\<close> is a constant of
  \<open>tools/colorful_text.py\<close>, not among the sources.
\<close>

record world =
  colorful_text_vlm :: string
  screenshot_path :: string
  image_base64 :: string
  backend_reply :: "error + (string \<times> int)"

subsection \<open>History shaping (lines 70 to 74)\<close>

text \<open>
  The guard \<open>if self.only_n_most_recent_images:\<close> is a truth test: \<open>None\<close> and \<open>0\<close> skip
  the pruning. The pruning is applied to the filtered list, with the default threshold.
\<close>

definition prune_stage :: "planner \<Rightarrow> pyval list \<Rightarrow> error + pyval list" where
  "prune_stage self planner_messages =
     (case only_n_most_recent_images self of
        None \<Rightarrow> Inr planner_messages
      | Some n \<Rightarrow>
          if n = 0 then Inr planner_messages
          else maybe_filter_to_n_most_recent_images planner_messages (Some n) 10)"

subsection \<open>The SSH connection string (lines 133 to 137)\<close>

text \<open>\<open>s.split(sep)\<close> for a one-character separator.\<close>

fun py_split :: "char \<Rightarrow> string \<Rightarrow> string list" where
  "py_split sep [] = [[]]"
| "py_split sep (c # cs) =
     (if c = sep then [] # py_split sep cs
      else (case py_split sep cs of
              [] \<Rightarrow> [[c]]
            | part # parts \<Rightarrow> (c # part) # parts))"

definition is_digit :: "char \<Rightarrow> bool" where
  "is_digit c = (c \<in> set ''0123456789'')"

definition is_py_space :: "char \<Rightarrow> bool" where
  "is_py_space c = (c \<in> set [CHR '' '', CHR 0x09, CHR 0x0A, CHR 0x0B, CHR 0x0C, CHR 0x0D])"

definition digit_value :: "char \<Rightarrow> nat" where
  "digit_value c = of_char c - 48"

text \<open>The digits of a literal, most significant first, with single underscores between digits.\<close>

fun digits_value :: "nat \<Rightarrow> string \<Rightarrow> nat option" where
  "digits_value acc [] = Some acc"
| "digits_value acc [c] = (if is_digit c then Some (acc * 10 + digit_value c) else None)"
| "digits_value acc (c # d # cs) =
     (if is_digit c then
        (if d = CHR ''_'' then
           (case cs of [] \<Rightarrow> None
            | e # _ \<Rightarrow> if is_digit e then digits_value (acc * 10 + digit_value c) cs else None)
         else digits_value (acc * 10 + digit_value c) (d # cs))
      else None)"

text \<open>
  \<open>int(s)\<close> on a string, base 10: surrounding whitespace is stripped, a sign is allowed,
  then digits with single underscores between them; more than 4300 digits are refused
  (the default limit of the interpreter). The whitespace stripped is the ASCII one (space,
  tab, newline, vertical tab, form feed, carriage return); digits and whitespace outside
  ASCII, which \<open>int\<close> also accepts, are not modelled.
\<close>

definition py_int :: "string \<Rightarrow> error + int" where
  "py_int s =
     (let t = rev (dropWhile is_py_space (rev (dropWhile is_py_space s)));
          neg = (t \<noteq> [] \<and> hd t = CHR ''-'');
          body = (if t \<noteq> [] \<and> (hd t = CHR ''-'' \<or> hd t = CHR ''+'') then tl t else t)
      in if body = [] \<or> length (filter is_digit body) > 4300 then Inl (ValueError ''invalid literal for int()'')
         else (case digits_value 0 body of
                 None \<Rightarrow> Inl (ValueError ''invalid literal for int()'')
               | Some n \<Rightarrow> Inr (if neg then - int n else int n)))"

text \<open>
  The \<open>try\<close> block: unpacking the parts into two names and \<open>int\<close> both raise
  \<open>ValueError\<close>, which the handler replaces by the configuration error.
\<close>

definition parse_ssh :: "string \<Rightarrow> error + (string \<times> int)" where
  "parse_ssh key =
     (case py_split CHR '':'' key of
        [ssh_host, ssh_port] \<Rightarrow>
          (case py_int ssh_port of
             Inl _ \<Rightarrow> Inl (ValueError ''Invalid SSH connection string. Expected format: host:port'')
           | Inr port \<Rightarrow> Inr (ssh_host, port))
      | _ \<Rightarrow> Inl (ValueError ''Invalid SSH connection string. Expected format: host:port''))"

subsection \<open>Dispatch to the model backend (lines 100 to 148)\<close>

definition dispatch :: "world \<Rightarrow> planner \<Rightarrow> pyval list \<Rightarrow> event list \<times> planner \<times> (error + string)" where
  "dispatch w self planner_messages =
     (if provider self = OPENAI \<or> provider self = OPENROUTER then
        (case backend_reply w of
           Inl e \<Rightarrow>
             ([RunOaiInterleaved planner_messages (system_prompt self) (model self) (api_key self)
                 (max_tokens self) (base_url self)], self, Inl e)
         | Inr (vlm_response, token_usage) \<Rightarrow>
             ([RunOaiInterleaved planner_messages (system_prompt self) (model self) (api_key self)
                 (max_tokens self) (base_url self)],
              (if provider self = OPENAI
               then self\<lparr>total_token_usage := total_token_usage self + token_usage,
                         total_cost := total_cost self + of_int token_usage * (15 / 100) / 1000000\<rparr>
               else self\<lparr>total_token_usage := total_token_usage self + token_usage\<rparr>),
              Inr vlm_response))
      else if provider self = QWEN \<and> model self = ''qwen2-vl-max'' then
        (case backend_reply w of
           Inl e \<Rightarrow>
             ([RunQwen planner_messages (system_prompt self) (model self) (api_key self)
                 (max_tokens self)], self, Inl e)
         | Inr (vlm_response, token_usage) \<Rightarrow>
             ([RunQwen planner_messages (system_prompt self) (model self) (api_key self)
                 (max_tokens self)],
              self\<lparr>total_token_usage := total_token_usage self + token_usage,
                    total_cost := total_cost self + of_int token_usage * (2 / 100) / (725 / 100) / 1000\<rparr>,
              Inr vlm_response))
      else if provider self = SSH then
        (case parse_ssh (api_key self) of
           Inl e \<Rightarrow> ([], self, Inl e)
         | Inr (ssh_host, ssh_port) \<Rightarrow>
             (case backend_reply w of
                Inl e \<Rightarrow>
                  ([RunSshLlmInterleaved planner_messages (system_prompt self) (model self)
                      ssh_host ssh_port (max_tokens self)], self, Inl e)
              | Inr (vlm_response, token_usage) \<Rightarrow>
                  ([RunSshLlmInterleaved planner_messages (system_prompt self) (model self)
                      ssh_host ssh_port (max_tokens self)], self, Inr vlm_response)))
      else ([], self, Inl (ValueError (''Model '' @ model self @ '' not supported''))))"

section \<open>JSON text and values\<close>

text \<open>
  What \<open>json.loads\<close> returns: \<open>None\<close>, booleans, integers, floats, strings, lists and
  dicts. A float is kept as the literal it was read from; the decimal text Python prints
  for a float is not modelled.
\<close>

datatype json =
    JNull
  | JBool bool
  | JInt int
  | JFloat string
  | JStr string
  | JArr "json list"
  | JObj "(string \<times> json) list"

definition is_json_space :: "char \<Rightarrow> bool" where
  "is_json_space c = (c \<in> set [CHR '' '', CHR 0x09, CHR 0x0A, CHR 0x0D])"

definition skip_ws :: "string \<Rightarrow> string" where
  "skip_ws s = dropWhile is_json_space s"

definition hex_value :: "char \<Rightarrow> nat option" where
  "hex_value c =
     (if is_digit c then Some (of_char c - 48)
      else if c \<in> set ''abcdef'' then Some (of_char c - 87)
      else if c \<in> set ''ABCDEF'' then Some (of_char c - 55)
      else None)"

text \<open>
  The UTF-8 bytes of a code point of the basic plane. A surrogate (\<open>D800\<close> to \<open>DFFF\<close>)
  has no encoding and is refused.
\<close>

definition utf8_encode :: "nat \<Rightarrow> string option" where
  "utf8_encode cp =
     (if cp < 128 then Some [char_of cp]
      else if cp < 2048 then Some [char_of (192 + cp div 64), char_of (128 + cp mod 64)]
      else if 55296 \<le> cp \<and> cp < 57344 then None
      else Some [char_of (224 + cp div 4096), char_of (128 + (cp div 64) mod 64),
                 char_of (128 + cp mod 64)])"

definition unescape :: "char \<Rightarrow> char option" where
  "unescape e =
     (if e = CHR 0x22 then Some (CHR 0x22)
      else if e = CHR 0x5C then Some (CHR 0x5C)
      else if e = CHR ''/'' then Some (CHR ''/'')
      else if e = CHR ''b'' then Some (CHR 0x08)
      else if e = CHR ''f'' then Some (CHR 0x0C)
      else if e = CHR ''n'' then Some (CHR 0x0A)
      else if e = CHR ''r'' then Some (CHR 0x0D)
      else if e = CHR ''t'' then Some (CHR 0x09)
      else None)"

text \<open>
  A string literal after its opening quote: the decoded string and the text after the
  closing quote. Control characters are refused inside a literal (strict mode).
\<close>

fun parse_string_body :: "string \<Rightarrow> (string \<times> string) option" where
  "parse_string_body [] = None"
| "parse_string_body (c # cs) =
     (if c = CHR 0x22 then Some ([], cs)
      else if c = CHR 0x5C then
        (case cs of
           [] \<Rightarrow> None
         | e # cs' \<Rightarrow>
             if e = CHR ''u'' then
               (case cs' of
                  h1 # h2 # h3 # h4 # cs'' \<Rightarrow>
                    (case (hex_value h1, hex_value h2, hex_value h3, hex_value h4) of
                       (Some a, Some b, Some c', Some d) \<Rightarrow>
                         (case utf8_encode (((a * 16 + b) * 16 + c') * 16 + d) of
                            None \<Rightarrow> None
                          | Some bytes \<Rightarrow>
                              (case parse_string_body cs'' of
                                 None \<Rightarrow> None
                               | Some (s, r) \<Rightarrow> Some (bytes @ s, r)))
                     | _ \<Rightarrow> None)
                | _ \<Rightarrow> None)
             else
               (case unescape e of
                  None \<Rightarrow> None
                | Some ch \<Rightarrow>
                    (case parse_string_body cs' of
                       None \<Rightarrow> None
                     | Some (s, r) \<Rightarrow> Some (ch # s, r))))
      else if (of_char c :: nat) < 32 then None
      else (case parse_string_body cs of
              None \<Rightarrow> None
            | Some (s, r) \<Rightarrow> Some (c # s, r)))"

fun nat_of_digits :: "nat \<Rightarrow> string \<Rightarrow> nat" where
  "nat_of_digits acc [] = acc"
| "nat_of_digits acc (c # cs) = nat_of_digits (acc * 10 + digit_value c) cs"

text \<open>
  A number: \<open>-? (0 | [1-9][0-9]*) (. [0-9]+)? ([eE] [-+]? [0-9]+)?\<close>, the longest match.
  Without fraction and exponent it is an integer (more than 4300 digits are refused, as
  by \<open>int\<close>), otherwise a float.
\<close>

definition parse_number :: "string \<Rightarrow> (json \<times> string) option" where
  "parse_number s =
     (let neg = (s \<noteq> [] \<and> hd s = CHR ''-'');
          s1 = (if neg then tl s else s)
      in case s1 of
           [] \<Rightarrow> None
         | d # s2 \<Rightarrow>
             if \<not> is_digit d then None
             else
               let ds = (if d = CHR ''0'' then [d] else d # takeWhile is_digit s2);
                   s3 = (if d = CHR ''0'' then s2 else dropWhile is_digit s2);
                   frac = (case s3 of
                             p # f # r \<Rightarrow>
                               if p = CHR ''.'' \<and> is_digit f then p # f # takeWhile is_digit r else []
                           | _ \<Rightarrow> []);
                   s4 = drop (length frac) s3;
                   ex = (case s4 of
                           e # r \<Rightarrow>
                             if e = CHR ''e'' \<or> e = CHR ''E'' then
                               (case r of
                                  g # r' \<Rightarrow>
                                    if is_digit g then e # g # takeWhile is_digit r'
                                    else if g = CHR ''+'' \<or> g = CHR ''-'' then
                                      (case r' of
                                         h # r'' \<Rightarrow>
                                           if is_digit h then e # g # h # takeWhile is_digit r'' else []
                                       | [] \<Rightarrow> [])
                                    else []
                                | [] \<Rightarrow> [])
                             else []
                         | [] \<Rightarrow> []);
                   s5 = drop (length ex) s4
               in if frac = [] \<and> ex = [] then
                    (if length ds > 4300 then None
                     else Some (JInt (if neg then - int (nat_of_digits 0 ds) else int (nat_of_digits 0 ds)), s5))
                  else Some (JFloat ((if neg then ''-'' else []) @ ds @ frac @ ex), s5))"

text \<open>
  The recursive descent of the decoder. \<open>fuel\<close> bounds the nesting and the number of
  members and elements; the callers below give one more than the length of the text. A
  repeated key keeps its first position and takes the last value, as a dict does.
\<close>

fun parse_value :: "nat \<Rightarrow> string \<Rightarrow> (json \<times> string) option"
and parse_members :: "nat \<Rightarrow> string \<Rightarrow> (string \<times> json) list \<Rightarrow> ((string \<times> json) list \<times> string) option"
and parse_elements :: "nat \<Rightarrow> string \<Rightarrow> json list \<Rightarrow> (json list \<times> string) option" where
  "parse_value 0 s = None"
| "parse_value (Suc fuel) s =
     (case s of
        [] \<Rightarrow> None
      | c # cs \<Rightarrow>
          if c = CHR ''{'' then
            (case skip_ws cs of
               [] \<Rightarrow> None
             | c' # cs' \<Rightarrow>
                 if c' = CHR ''}'' then Some (JObj [], cs')
                 else (case parse_members fuel (c' # cs') [] of
                         None \<Rightarrow> None
                       | Some (members, r) \<Rightarrow> Some (JObj members, r)))
          else if c = CHR ''['' then
            (case skip_ws cs of
               [] \<Rightarrow> None
             | c' # cs' \<Rightarrow>
                 if c' = CHR '']'' then Some (JArr [], cs')
                 else (case parse_elements fuel (c' # cs') [] of
                         None \<Rightarrow> None
                       | Some (elements, r) \<Rightarrow> Some (JArr elements, r)))
          else if c = CHR 0x22 then
            (case parse_string_body cs of
               None \<Rightarrow> None
             | Some (str, r) \<Rightarrow> Some (JStr str, r))
          else if take 4 s = ''null'' then Some (JNull, drop 4 s)
          else if take 4 s = ''true'' then Some (JBool True, drop 4 s)
          else if take 5 s = ''false'' then Some (JBool False, drop 5 s)
          else if take 3 s = ''NaN'' then Some (JFloat ''nan'', drop 3 s)
          else if take 8 s = ''Infinity'' then Some (JFloat ''inf'', drop 8 s)
          else if take 9 s = ''-Infinity'' then Some (JFloat ''-inf'', drop 9 s)
          else parse_number s)"
| "parse_members 0 s acc = None"
| "parse_members (Suc fuel) s acc =
     (case s of
        [] \<Rightarrow> None
      | q # cs \<Rightarrow>
          if q \<noteq> CHR 0x22 then None
          else
            (case parse_string_body cs of
               None \<Rightarrow> None
             | Some (key, r1) \<Rightarrow>
                 (case skip_ws r1 of
                    [] \<Rightarrow> None
                  | colon # r2 \<Rightarrow>
                      if colon \<noteq> CHR '':'' then None
                      else
                        (case parse_value fuel (skip_ws r2) of
                           None \<Rightarrow> None
                         | Some (v, r3) \<Rightarrow>
                             (case skip_ws r3 of
                                [] \<Rightarrow> None
                              | d # r4 \<Rightarrow>
                                  if d = CHR ''}'' then Some (AList.update key v acc, r4)
                                  else if d = CHR '','' then
                                    parse_members fuel (skip_ws r4) (AList.update key v acc)
                                  else None)))))"
| "parse_elements 0 s acc = None"
| "parse_elements (Suc fuel) s acc =
     (case parse_value fuel s of
        None \<Rightarrow> None
      | Some (v, r) \<Rightarrow>
          (case skip_ws r of
             [] \<Rightarrow> None
           | d # r' \<Rightarrow>
               if d = CHR '']'' then Some (acc @ [v], r')
               else if d = CHR '','' then parse_elements fuel (skip_ws r') (acc @ [v])
               else None))"

text \<open>
  \<open>json.loads(s)\<close>: one value with whitespace around it and nothing after it.
\<close>

definition json_loads :: "string \<Rightarrow> error + json" where
  "json_loads s =
     (case parse_value (Suc (length s)) (skip_ws s) of
        None \<Rightarrow> Inl JSONDecodeError
      | Some (v, r) \<Rightarrow> if skip_ws r = [] then Inr v else Inl JSONDecodeError)"

section \<open>Printing a value: \<open>f'{value}'\<close>\<close>

fun digits_of_nat :: "nat \<Rightarrow> string" where
  "digits_of_nat n =
     (if n < 10 then [''0123456789'' ! n]
      else digits_of_nat (n div 10) @ [''0123456789'' ! (n mod 10)])"

definition str_of_int :: "int \<Rightarrow> string" where
  "str_of_int i = (if i < 0 then ''-'' @ digits_of_nat (nat (- i)) else digits_of_nat (nat i))"

definition hex_digit :: "nat \<Rightarrow> char" where
  "hex_digit n = ''0123456789abcdef'' ! (n mod 16)"

text \<open>
  \<open>repr\<close> of a string: in double quotes when it holds a single quote and no double
  quote, in single quotes otherwise; the backslash, the enclosing quote, tab, newline and
  carriage return are escaped, other control characters are written \<open>\xNN\<close>. Bytes above
  127 are parts of printable characters and are kept.
\<close>

definition repr_char :: "char \<Rightarrow> char \<Rightarrow> string" where
  "repr_char quote c =
     (if c = CHR 0x5C then [CHR 0x5C, CHR 0x5C]
      else if c = quote then [CHR 0x5C, quote]
      else if c = CHR 0x09 then [CHR 0x5C, CHR ''t'']
      else if c = CHR 0x0A then [CHR 0x5C, CHR ''n'']
      else if c = CHR 0x0D then [CHR 0x5C, CHR ''r'']
      else if (of_char c :: nat) < 32 \<or> c = CHR 0x7F then
        [CHR 0x5C, CHR ''x'', hex_digit (of_char c div 16), hex_digit (of_char c)]
      else [c])"

definition repr_str :: "string \<Rightarrow> string" where
  "repr_str s =
     (let quote = (if CHR 0x27 \<in> set s \<and> CHR 0x22 \<notin> set s then CHR 0x22 else CHR 0x27)
      in [quote] @ concat (map (repr_char quote) s) @ [quote])"

fun join :: "string \<Rightarrow> string list \<Rightarrow> string" where
  "join sep [] = []"
| "join sep [x] = x"
| "join sep (x # y # ys) = x @ sep @ join sep (y # ys)"

text \<open>
  \<open>repr\<close> of a value, as it appears inside a printed list or dict. The text of a float is
  not modelled: printing one gives no result here (\<open>None\<close>).
\<close>

fun py_repr :: "json \<Rightarrow> string option"
and py_repr_list :: "json list \<Rightarrow> string list option"
and py_repr_items :: "(string \<times> json) list \<Rightarrow> string list option" where
  "py_repr JNull = Some ''None''"
| "py_repr (JBool b) = Some (if b then ''True'' else ''False'')"
| "py_repr (JInt i) = Some (str_of_int i)"
| "py_repr (JFloat lit) = None"
| "py_repr (JStr s) = Some (repr_str s)"
| "py_repr (JArr xs) =
     (case py_repr_list xs of None \<Rightarrow> None | Some rs \<Rightarrow> Some (''['' @ join '', '' rs @ '']''))"
| "py_repr (JObj ms) =
     (case py_repr_items ms of None \<Rightarrow> None | Some rs \<Rightarrow> Some (''{'' @ join '', '' rs @ ''}''))"
| "py_repr_list [] = Some []"
| "py_repr_list (x # xs) =
     (case py_repr x of
        None \<Rightarrow> None
      | Some r \<Rightarrow> (case py_repr_list xs of None \<Rightarrow> None | Some rs \<Rightarrow> Some (r # rs)))"
| "py_repr_items [] = Some []"
| "py_repr_items (kv # ms) =
     (case py_repr (snd kv) of
        None \<Rightarrow> None
      | Some r \<Rightarrow>
          (case py_repr_items ms of
             None \<Rightarrow> None
           | Some rs \<Rightarrow> Some ((repr_str (fst kv) @ '': '' @ r) # rs)))"

text \<open>\<open>str\<close> of a value: a string prints as itself, everything else as its \<open>repr\<close>.\<close>

definition py_str :: "json \<Rightarrow> string option" where
  "py_str v = (case v of JStr s \<Rightarrow> Some s | _ \<Rightarrow> py_repr v)"

section \<open>Response extraction and summary (lines 155 to 167)\<close>

text \<open>
  Modelled from the spec: \<open>extract_data\<close> of \<open>gui_agent/llm_utils/llm_utils.py\<close>, which is
  not among the sources. The spec (4.3, step 6): extract the first well-formed JSON
  object from the raw response text; the response may be wrapped in prose or code
  fences; extraction fails with a parse error if no JSON object is found. The first
  position at which a well-formed object starts is taken, and the text of that object is
  returned as it stands.
\<close>

definition object_at :: "string \<Rightarrow> string option" where
  "object_at s =
     (case s of
        [] \<Rightarrow> None
      | c # _ \<Rightarrow>
          if c = CHR ''{'' then
            (case parse_value (Suc (length s)) s of
               Some (JObj _, r) \<Rightarrow> Some (take (length s - length r) s)
             | _ \<Rightarrow> None)
          else None)"

fun first_object :: "string \<Rightarrow> string option" where
  "first_object [] = None"
| "first_object (c # cs) =
     (case object_at (c # cs) of
        Some t \<Rightarrow> Some t
      | None \<Rightarrow> first_object cs)"

definition extract_data :: "string \<Rightarrow> string \<Rightarrow> error + string" where
  "extract_data input_string data_type =
     (case first_object input_string of
        None \<Rightarrow> Inl ParseError
      | Some t \<Rightarrow> Inr t)"

text \<open>
  The two helpers of the last stage are not among the sources (\<open>extract_data\<close>, and
  \<open>json.loads\<close> of the standard library); the planner takes them as parameters.
\<close>

record helpers =
  extract_data_fn :: "string \<Rightarrow> string \<Rightarrow> error + string"
  json_loads_fn :: "string \<Rightarrow> error + json"

definition modelled_helpers :: helpers where
  "modelled_helpers = \<lparr>extract_data_fn = extract_data, json_loads_fn = json_loads\<rparr>"

text \<open>\<open>.items()\<close>: only a dict has it.\<close>

definition json_items :: "json \<Rightarrow> error + (string \<times> json) list" where
  "json_items v = (case v of JObj ms \<Rightarrow> Inr ms | _ \<Rightarrow> Inl AttributeError)"

text \<open>The loop that builds \<open>vlm_plan_str\<close>.\<close>

fun plan_str :: "(string \<times> json) list \<Rightarrow> string \<Rightarrow> error + string" where
  "plan_str [] vlm_plan_str = Inr vlm_plan_str"
| "plan_str (kv # rest) vlm_plan_str =
     (case py_str (snd kv) of
        None \<Rightarrow> Inl (Unmodelled ''float'')
      | Some v \<Rightarrow>
          if fst kv = ''Thinking'' then plan_str rest (vlm_plan_str @ v)
          else plan_str rest (vlm_plan_str @ [CHR 0x0A] @ fst kv @ '': '' @ v))"

definition summarise :: "helpers \<Rightarrow> world \<Rightarrow> string \<Rightarrow> event list \<times> (error + string)" where
  "summarise h w vlm_response =
     (case extract_data_fn h vlm_response ''json'' of
        Inl e \<Rightarrow> ([], Inl e)
      | Inr vlm_response_json \<Rightarrow>
          (case json_loads_fn h vlm_response_json of
             Inl e \<Rightarrow> ([], Inl e)
           | Inr v \<Rightarrow>
               (case json_items v of
                  Inl e \<Rightarrow> ([], Inl e)
                | Inr items \<Rightarrow>
                    (case plan_str items [] of
                       Inl e \<Rightarrow> ([], Inl e)
                     | Inr vlm_plan_str \<Rightarrow>
                         ([OutputCallback (colorful_text_vlm w @ '':'' @ [CHR 0x0A] @ vlm_plan_str)],
                          Inr vlm_response_json)))))"

section \<open>\<open>APIVLMPlanner.__call__\<close>\<close>

record call_result =
  outcome :: "error + string"
  planner_after :: planner
  log_after :: "pyval list"
  events :: "event list"

definition screenshot_events :: "world \<Rightarrow> planner \<Rightarrow> event list" where
  "screenshot_events w self =
     [GetScreenshot (selected_screen self),
      OutputCallback (''Screenshot for '' @ colorful_text_vlm w @ '':'' @ [CHR 0x0A] @
                      ''<img src='' @ [CHR 0x22] @ ''data:image/png;base64,'' @ image_base64 w @
                      [CHR 0x22] @ ''>'')]"

definition call :: "helpers \<Rightarrow> world \<Rightarrow> planner \<Rightarrow> pyval list \<Rightarrow> call_result" where
  "call h w self messages =
     (case message_filter_callback messages of
        (log', filtered) \<Rightarrow>
          (case prune_stage self filtered of
             Inl e \<Rightarrow> \<lparr>outcome = Inl e, planner_after = self, log_after = log', events = []\<rparr>
           | Inr planner_messages \<Rightarrow>
               (case dispatch w self (planner_messages @ [PStr (screenshot_path w)]) of
                  (backend_events, self', reply) \<Rightarrow>
                    (case reply of
                       Inl e \<Rightarrow>
                         \<lparr>outcome = Inl e, planner_after = self', log_after = log',
                          events = screenshot_events w self @ backend_events\<rparr>
                     | Inr vlm_response \<Rightarrow>
                         (case summarise h w vlm_response of
                            (summary_events, result) \<Rightarrow>
                              \<lparr>outcome = result, planner_after = self', log_after = log',
                               events = screenshot_events w self @ backend_events @ summary_events\<rparr>)))))"

section \<open>The actor: \<open>ShowUIActorAPI\<close>\<close>

record actor =
  actor_base_url :: string
  model_name :: string
  actor_selected_screen :: int
  split :: string
  actor_system_prompt :: string
  action_history :: string

text \<open>
  What the chat-completion request of one call comes to: it raises (as may the
  screenshot before it), or it returns a message whose content is a string or \<open>None\<close>.
\<close>

datatype completion = Raises error | Content "string option"

text \<open>The prompt of one call: the history is appended when it is not empty.\<close>

definition current_prompt :: "actor \<Rightarrow> string \<Rightarrow> string" where
  "current_prompt self task =
     ''Task: '' @ task @
     (if action_history self \<noteq> []
      then [CHR 0x0A, CHR 0x0A] @ ''Previous Actions:'' @ [CHR 0x0A] @ action_history self
      else []) @
     [CHR 0x0A, CHR 0x0A] @
     ''Given the screenshot and the task, provide the next action based on the defined action space and format.''"

text \<open>
  \<open>__call__\<close>: the actor after the call and what the call returns. When the request
  raises, or the content is \<open>None\<close> (\<open>None + '\n'\<close> is a \<open>TypeError\<close>), the history is
  as before.
\<close>

definition actor_call :: "actor \<Rightarrow> string \<Rightarrow> completion \<Rightarrow> actor \<times> (error + pyval)" where
  "actor_call self task reply =
     (case reply of
        Raises e \<Rightarrow> (self, Inl e)
      | Content None \<Rightarrow> (self, Inl TypeError)
      | Content (Some output_text) \<Rightarrow>
          (self\<lparr>action_history := action_history self @ output_text @ [CHR 0x0A]\<rparr>,
           Inr (PDict [(''content'', PStr output_text), (''role'', PStr ''assistant'')])))"

text \<open>A session: the calls in order, each with its task and what the backend answers.\<close>

fun actor_session :: "actor \<Rightarrow> (string \<times> completion) list \<Rightarrow> actor" where
  "actor_session self [] = self"
| "actor_session self (c # calls) = actor_session (fst (actor_call self (fst c) (snd c))) calls"

definition actor_init :: "string \<Rightarrow> string \<Rightarrow> int \<Rightarrow> string \<Rightarrow> string \<Rightarrow> actor" where
  "actor_init url name screen split_name prompt =
     \<lparr>actor_base_url = url, model_name = name, actor_selected_screen = screen,
      split = split_name, actor_system_prompt = prompt, action_history = []\<rparr>"

section \<open>Example planner data\<close>

definition example_response :: string where
  \<open>example_response =
     ''Sure! ```json'' @ [CHR 0x0A] @
     ''{"Thinking": "t", "Next Action": "CLICK 'ok'"}'' @ [CHR 0x0A] @ ''```''\<close>

definition example_json_text :: string where
  \<open>example_json_text = ''{"Thinking": "t", "Next Action": "CLICK 'ok'"}''\<close>

definition example_world :: world where
  "example_world =
     \<lparr>colorful_text_vlm = ''VLMPlanner'', screenshot_path = ''tmp/screenshot.png'',
      image_base64 = ''aGk='', backend_reply = Inr (example_response, 7)\<rparr>"

definition example_planner :: "api_provider \<Rightarrow> string \<Rightarrow> int option \<Rightarrow> planner" where
  "example_planner prov key only_n =
     \<lparr>model = ''Qwen2-VL-7B-Instruct'', provider = prov, system_prompt_suffix = [],
      api_key = key, max_tokens = 4096, only_n_most_recent_images = only_n,
      selected_screen = 0, system_prompt = ''You are using a Linux device.'',
      base_url = None, print_usage = True, total_token_usage = 0, total_cost = 0\<rparr>"

section \<open>Observations on a planner call\<close>

definition wrap_content :: "pyval \<Rightarrow> pyval" where
  "wrap_content m =
     (case dict_get m ''content'' of
        None \<Rightarrow> m
      | Some c \<Rightarrow> if isinstance_list c then m else dict_set m ''content'' (PList [c]))"

definition is_user :: "pyval \<Rightarrow> bool" where
  "is_user m = (isinstance_dict m \<and> dict_get m ''role'' = Some (PStr ''user''))"

definition left_or_wrapped :: "pyval \<Rightarrow> pyval \<Rightarrow> bool" where
  "left_or_wrapped m m' = (m' = m \<or> (is_user m \<and> m' = wrap_content m))"


definition summary_line :: "string \<times> json \<Rightarrow> string" where
  "summary_line kv =
     (case py_str (snd kv) of
        None \<Rightarrow> []
      | Some v \<Rightarrow> if fst kv = ''Thinking'' then v else [CHR 0x0A] @ fst kv @ '': '' @ v)"

definition example_summary :: string where
  "example_summary = ''t'' @ [CHR 0x0A] @ ''Next Action: CLICK '' @ [CHR 0x27] @ ''ok'' @ [CHR 0x27]"

section \<open>Observations on an actor session\<close>

text \<open>
  The outputs of the calls that returned a string, in call order; a call that raised or
  whose content was \<open>None\<close> has none.
\<close>

fun returned_outputs :: "(string \<times> completion) list \<Rightarrow> string list" where
  "returned_outputs [] = []"
| "returned_outputs (c # calls) =
     (case snd c of
        Content (Some output_text) \<Rightarrow> output_text # returned_outputs calls
      | _ \<Rightarrow> returned_outputs calls)"

definition history_lines :: "string list \<Rightarrow> string" where
  "history_lines outputs = concat (map (\<lambda>output_text. output_text @ [CHR 0x0A]) outputs)"

definition answered :: "(string \<times> string) list \<Rightarrow> (string \<times> completion) list" where
  "answered calls = map (\<lambda>c. (fst c, Content (Some (snd c)))) calls"

definition example_session :: "(string \<times> completion) list" where
  "example_session =
     [(''CLICK ok'', Content (Some ''a1'')),
      (''ENTER'', Raises (ExternalError ''timeout'')),
      (''ENTER'', Content (Some ''a2''))]"

definition example_actor :: actor where
  "example_actor = actor_init ''http://localhost:1234/v1'' ''showui-2b'' 0 ''desktop'' ''nav''"


section \<open>Image pruning: properties\<close>

lemma py_iter_images:
  "py_iter (get_content_or_empty b) = Inr cs \<Longrightarrow> filter is_image cs = filter is_image (block_contents b)"
  by (auto simp: py_iter_def get_content_or_empty_def block_contents_def is_image_def isinstance_dict_def
       filter_empty_conv
       split: option.splits pyval.splits)

lemma total_images_length:
  "total_images bs = Inr n \<Longrightarrow> n = int (length (images_of bs))"
proof (induction bs arbitrary: n)
  case Nil
  then show ?case by (simp add: images_of_def)
next
  case (Cons b bs)
  then show ?case
    by (auto simp: images_of_def dest: py_iter_images arg_cong[where f=length] split: sum.splits)
qed

lemma prune_content_counter:
  "nat (fst (prune_content r cs)) = nat r - length (filter is_image cs)"
  by (induction cs arbitrary: r) (auto simp: split_beta)

lemma prune_content_images:
  "filter is_image (snd (prune_content r cs)) = drop (nat r) (filter is_image cs)"
proof (induction cs arbitrary: r)
  case Nil
  then show ?case by simp
next
  case (Cons c cs)
  show ?case
  proof (cases "is_image c \<and> r > 0")
    case True
    then have "nat r = Suc (nat (r - 1))" by arith
    with True Cons.IH[of "r - 1"] show ?thesis by simp
  next
    case False
    with Cons.IH[of r] show ?thesis by (auto simp: split_beta)
  qed
qed

lemma prune_content_others:
  "filter (\<lambda>c. \<not> is_image c) (snd (prune_content r cs)) = filter (\<lambda>c. \<not> is_image c) cs"
  by (induction cs arbitrary: r) (simp_all add: split_beta)

lemma block_contents_set:
  "dict_get b ''content'' = Some (PList cs) \<Longrightarrow>
   block_contents (dict_set b ''content'' (PList cs')) = cs'"
  by (auto simp: block_contents_def dict_get_def dict_set_def update_conv' split: pyval.splits)

lemma prune_blocks_length: "length (snd (prune_blocks r bs)) = length bs"
  by (induction bs arbitrary: r) (auto simp: split_beta split: option.splits pyval.splits)

lemma images_of_Cons: "images_of (b # bs) = filter is_image (block_contents b) @ images_of bs"
  by (simp add: images_of_def)

lemma block_contents_not_list:
  "(\<And>cs. dict_get b ''content'' \<noteq> Some (PList cs)) \<Longrightarrow> block_contents b = []"
  by (auto simp: block_contents_def split: option.splits pyval.splits)

lemma prune_blocks_images:
  "images_of (snd (prune_blocks r bs)) = drop (nat r) (images_of bs)"
proof (induction bs arbitrary: r)
  case Nil
  then show ?case by (simp add: images_of_def)
next
  case (Cons b bs)
  show ?case
  proof (cases "\<exists>cs. dict_get b ''content'' = Some (PList cs)")
    case True
    then obtain cs where cs: "dict_get b ''content'' = Some (PList cs)" by blast
    then have bc: "block_contents b = cs" by (simp add: block_contents_def)
    show ?thesis
      using Cons.IH[of "fst (prune_content r cs)"]
      by (simp add: cs bc split_beta images_of_Cons block_contents_set[OF cs]
            prune_content_images prune_content_counter)
  next
    case False
    then have nl: "\<And>cs. dict_get b ''content'' \<noteq> Some (PList cs)" by blast
    have "snd (prune_blocks r (b # bs)) = b # snd (prune_blocks r bs)"
      using nl by (auto simp: split_beta split: option.splits pyval.splits)
    then show ?thesis
      using Cons.IH[of r] by (simp add: images_of_Cons block_contents_not_list[OF nl])
  qed
qed

lemma prune_blocks_others:
  "map non_images_of (snd (prune_blocks r bs)) = map non_images_of bs"
proof (induction bs arbitrary: r)
  case Nil
  then show ?case by simp
next
  case (Cons b bs)
  show ?case
  proof (cases "\<exists>cs. dict_get b ''content'' = Some (PList cs)")
    case True
    then obtain cs where cs: "dict_get b ''content'' = Some (PList cs)" by blast
    then have bc: "block_contents b = cs" by (simp add: block_contents_def)
    show ?thesis
      using Cons.IH[of "fst (prune_content r cs)"]
      by (simp add: cs bc split_beta non_images_of_def block_contents_set[OF cs]
            prune_content_others)
  next
    case False
    then have nl: "\<And>cs. dict_get b ''content'' \<noteq> Some (PList cs)" by blast
    have "snd (prune_blocks r (b # bs)) = b # snd (prune_blocks r bs)"
      using nl by (auto simp: split_beta split: option.splits pyval.splits)
    then show ?thesis
      using Cons.IH[of r] by simp
  qed
qed

lemma is_tool_result_dict_set:
  "is_tool_result b \<Longrightarrow> is_tool_result (dict_set b ''content'' v)"
  by (auto simp: is_tool_result_def isinstance_dict_def dict_get_def dict_set_def update_conv'
        split: pyval.splits)

lemma prune_blocks_tool_results:
  "list_all is_tool_result bs \<Longrightarrow> list_all is_tool_result (snd (prune_blocks r bs))"
  by (induction bs arbitrary: r)
     (auto simp: split_beta is_tool_result_dict_set split: option.splits pyval.splits)

lemma py_iter_dict_set:
  "py_iter (get_content_or_empty (dict_set b ''content'' (PList cs'))) =
     (case b of PDict d \<Rightarrow> Inr cs' | _ \<Rightarrow> py_iter (get_content_or_empty b))"
  by (auto simp: py_iter_def get_content_or_empty_def dict_get_def dict_set_def update_conv'
        split: pyval.splits)

lemma prune_blocks_total_defined:
  "total_images bs = Inr n \<Longrightarrow> \<exists>n'. total_images (snd (prune_blocks r bs)) = Inr n'"
proof (induction bs arbitrary: r n)
  case Nil
  then show ?case by simp
next
  case (Cons b bs)
  from Cons.prems obtain cs m where
    it: "py_iter (get_content_or_empty b) = Inr cs" and m: "total_images bs = Inr m"
    by (auto split: sum.splits)
  show ?case
  proof (cases "\<exists>cs. dict_get b ''content'' = Some (PList cs)")
    case True
    then obtain cs0 where cs0: "dict_get b ''content'' = Some (PList cs0)" by blast
    then obtain d where d: "b = PDict d" by (cases b) (auto simp: dict_get_def)
    from Cons.IH[OF m, of "fst (prune_content r cs0)"] obtain n' where
      "total_images (snd (prune_blocks (fst (prune_content r cs0)) bs)) = Inr n'" by blast
    then show ?thesis
      using cs0 unfolding d by (simp add: split_beta py_iter_dict_set)
  next
    case False
    then have nl: "\<And>cs. dict_get b ''content'' \<noteq> Some (PList cs)" by blast
    have eq: "snd (prune_blocks r (b # bs)) = b # snd (prune_blocks r bs)"
      using nl by (auto simp: split_beta split: option.splits pyval.splits)
    from Cons.IH[OF m, of r] obtain n' where "total_images (snd (prune_blocks r bs)) = Inr n'"
      by blast
    then show ?thesis by (simp add: eq it del: prune_blocks.simps)
  qed
qed

lemma tool_result_blocks_all:
  "tool_result_blocks msgs = Inr bs \<Longrightarrow> list_all is_tool_result bs"
  by (induction msgs arbitrary: bs) (auto simp: list_all_iff split: sum.splits)

lemma write_back_items_spec:
  "length (filter is_tool_result items) \<le> length bs \<Longrightarrow> list_all is_tool_result bs \<Longrightarrow>
   filter is_tool_result (fst (write_back_items items bs)) = take (length (filter is_tool_result items)) bs
   \<and> snd (write_back_items items bs) = drop (length (filter is_tool_result items)) bs"
proof (induction items arbitrary: bs)
  case Nil
  then show ?case by simp
next
  case (Cons item items)
  show ?case
  proof (cases "is_tool_result item")
    case True
    with Cons.prems obtain b bs' where bs: "bs = b # bs'" by (cases bs) auto
    with Cons.prems True have "length (filter is_tool_result items) \<le> length bs'"
      and "list_all is_tool_result bs'" and "is_tool_result b" by auto
    with Cons.IH[of bs'] True bs show ?thesis by (simp add: split_beta)
  next
    case False
    with Cons.prems Cons.IH[of bs] show ?thesis by (simp add: split_beta)
  qed
qed

lemma message_items_dict_set:
  "dict_get m ''content'' = Some (PList items) \<Longrightarrow>
   message_items (dict_set m ''content'' (PList items')) = Inr items'"
  by (auto simp: message_items_def subscript_content_def dict_get_def dict_set_def update_conv'
        split: pyval.splits)

lemma message_items_list:
  "dict_get m ''content'' = Some (PList items) \<Longrightarrow> message_items m = Inr items"
  by (auto simp: message_items_def subscript_content_def dict_get_def split: pyval.splits)

lemma message_items_not_list:
  "message_items m = Inr items \<Longrightarrow> (\<And>cs. dict_get m ''content'' \<noteq> Some (PList cs)) \<Longrightarrow> items = []"
  by (auto simp: message_items_def subscript_content_def dict_get_def split: pyval.splits option.splits)

lemma tool_result_blocks_write_back:
  "tool_result_blocks msgs = Inr bs \<Longrightarrow> length bs' = length bs \<Longrightarrow> list_all is_tool_result bs' \<Longrightarrow>
   tool_result_blocks (write_back msgs bs') = Inr bs'"
proof (induction msgs arbitrary: bs bs')
  case Nil
  then show ?case by simp
next
  case (Cons m msgs)
  from Cons.prems(1) obtain items rest where
    items: "message_items m = Inr items" and rest: "tool_result_blocks msgs = Inr rest"
    and bs: "bs = filter is_tool_result items @ rest"
    by (auto split: sum.splits)
  let ?k = "length (filter is_tool_result items)"
  have len: "?k \<le> length bs'" using Cons.prems(2) bs by simp
  show ?case
  proof (cases "\<exists>cs. dict_get m ''content'' = Some (PList cs)")
    case True
    then obtain cs where cs: "dict_get m ''content'' = Some (PList cs)" by blast
    with items have [simp]: "cs = items" by (simp add: message_items_list)
    note wb = write_back_items_spec[OF len Cons.prems(3)]
    have d: "list_all is_tool_result (drop ?k bs')" using Cons.prems(3)
      by (auto simp: list_all_iff dest: in_set_dropD)
    have "length (drop ?k bs') = length rest" using Cons.prems(2) bs by simp
    from Cons.IH[OF rest this d] have
      "tool_result_blocks (write_back msgs (drop ?k bs')) = Inr (drop ?k bs')" .
    then show ?thesis
      using wb cs by (simp add: split_beta message_items_dict_set)
  next
    case False
    then have nl: "\<And>cs. dict_get m ''content'' \<noteq> Some (PList cs)" by blast
    have e: "items = []" using message_items_not_list[OF items nl] .
    have wbm: "write_back (m # msgs) bs' = m # write_back msgs bs'"
      using nl by (auto split: option.splits pyval.splits)
    have "length bs' = length rest" using Cons.prems(2) bs e by simp
    from Cons.IH[OF rest this Cons.prems(3)] show ?thesis
      by (simp add: wbm items e del: write_back.simps)
  qed
qed

lemma pruning_call:
  assumes "tool_result_blocks messages = Inr blocks"
      and "total_images blocks = Inr N"
      and "thr \<noteq> 0"
  shows "maybe_filter_to_n_most_recent_images messages (Some keep) thr =
           Inr (write_back messages (snd (prune_blocks ((N - keep) - (N - keep) mod thr) blocks)))"
  using assms by (simp add: maybe_filter_to_n_most_recent_images_def)

lemma pruning_blocks:
  assumes blocks: "tool_result_blocks messages = Inr blocks"
  shows "tool_result_blocks (write_back messages (snd (prune_blocks r blocks))) =
           Inr (snd (prune_blocks r blocks))"
  by (rule tool_result_blocks_write_back[OF blocks prune_blocks_length
        prune_blocks_tool_results[OF tool_result_blocks_all[OF blocks]]])

lemma pruning_total:
  assumes total: "total_images blocks = Inr N"
  shows "total_images (snd (prune_blocks r blocks)) =
           Inr (int (length (images_of blocks) - nat r))"
proof -
  from prune_blocks_total_defined[OF total, of r] obtain n' where
    n': "total_images (snd (prune_blocks r blocks)) = Inr n'" by blast
  from total_images_length[OF n'] have "n' = int (length (images_of blocks) - nat r)"
    by (simp add: prune_blocks_images)
  with n' show ?thesis by simp
qed

lemma chunked_removal:
  fixes N keep :: int
  assumes "0 \<le> keep" "N = int n"
  shows "int (n - nat ((N - keep) - (N - keep) mod 10)) =
           N - (if N > keep then ((N - keep) div 10) * 10 else 0)"
proof (cases "N > keep")
  case True
  have eq: "(N - keep) - (N - keep) mod 10 = ((N - keep) div 10) * 10"
    by (simp add: minus_mod_eq_div_mult)
  have "0 \<le> (N - keep) div 10" using True by simp
  moreover have "((N - keep) div 10) * 10 \<le> N - keep" by simp
  ultimately show ?thesis using True assms unfolding eq by auto
next
  case False
  have "0 \<le> (N - keep) mod 10" by simp
  with False have "(N - keep) - (N - keep) mod 10 \<le> 0" by linarith
  then show ?thesis using False assms by simp
qed

text \<open>
  Claim C1. Let the tool results collected from a log hold \<open>N\<close> image items in total (the
  count the function itself computes), let \<open>images_to_keep \<ge> 0\<close> and let the removal
  threshold be the default 10. Then the call returns, and the log it leaves holds
  \<open>N - floor((N - images_to_keep) / 10) * 10\<close> images when \<open>N > images_to_keep\<close>, and
  still \<open>N\<close> images otherwise: exactly that many images are removed.
\<close>

theorem prune_removes_chunked_count:
  assumes "tool_result_blocks messages = Inr blocks"
      and "total_images blocks = Inr N"
      and "0 \<le> images_to_keep"
  shows "\<exists>messages' blocks'.
           maybe_filter_to_n_most_recent_images messages (Some images_to_keep) 10 = Inr messages' \<and>
           tool_result_blocks messages' = Inr blocks' \<and>
           total_images blocks' =
             Inr (N - (if N > images_to_keep then ((N - images_to_keep) div 10) * 10 else 0))"
proof -
  let ?r = "(N - images_to_keep) - (N - images_to_keep) mod 10"
  have N: "N = int (length (images_of blocks))" by (rule total_images_length[OF assms(2)])
  have ten: "(10::int) \<noteq> 0" by simp
  have "total_images (snd (prune_blocks ?r blocks)) =
          Inr (N - (if N > images_to_keep then ((N - images_to_keep) div 10) * 10 else 0))"
    using pruning_total[OF assms(2), of ?r] chunked_removal[OF assms(3) N] by simp
  with pruning_call[OF assms(1,2) ten, of images_to_keep] pruning_blocks[OF assms(1), of ?r]
  show ?thesis by blast
qed

lemma example_log_blocks:
  "tool_result_blocks example_log =
     Inr [example_tool_result (example_text # replicate 7 example_image),
          example_tool_result (replicate 5 example_image @ [example_text])]"
  by (simp add: example_log_def message_items_def subscript_content_def is_tool_result_def
        isinstance_dict_def dict_get_def example_tool_result_def)

lemma example_log_total:
  "total_images [example_tool_result (example_text # replicate 7 example_image),
          example_tool_result (replicate 5 example_image @ [example_text])] = Inr 12"
  by (simp add: example_tool_result_def get_content_or_empty_def dict_get_def py_iter_def
        is_image_def isinstance_dict_def example_image_def example_text_def)

text \<open>
  The example log holds 12 images in two tool results; keeping 1 removes 10 and leaves 2.
\<close>

theorem prune_removes_chunked_count_witness:
  "tool_result_blocks example_log =
     Inr [example_tool_result (example_text # replicate 7 example_image),
          example_tool_result (replicate 5 example_image @ [example_text])] \<and>
   total_images [example_tool_result (example_text # replicate 7 example_image),
          example_tool_result (replicate 5 example_image @ [example_text])] = Inr 12 \<and>
   (0::int) \<le> 1 \<and>
   (\<exists>messages' blocks'.
      maybe_filter_to_n_most_recent_images example_log (Some 1) 10 = Inr messages' \<and>
      tool_result_blocks messages' = Inr blocks' \<and>
      total_images blocks' = Inr 2)"
  using prune_removes_chunked_count[OF example_log_blocks example_log_total, of 1]
    example_log_blocks example_log_total
  by simp

text \<open>
  Claim C6. Pruning removes images from the front of the traversal order: the images
  left in the log are the images it held before without the first
  \<open>images_to_remove\<close> of them (the oldest), so the most recent ones are retained. Every
  tool result keeps its items that are not images (text, errors), unchanged and in order,
  and no tool result is added or dropped.
\<close>

theorem prune_drops_oldest_images_only:
  assumes "tool_result_blocks messages = Inr blocks"
      and "total_images blocks = Inr N"
      and "min_removal_threshold \<noteq> 0"
  shows "\<exists>messages' blocks'.
           maybe_filter_to_n_most_recent_images messages (Some images_to_keep) min_removal_threshold
             = Inr messages' \<and>
           tool_result_blocks messages' = Inr blocks' \<and>
           images_of blocks' =
             drop (nat ((N - images_to_keep) - (N - images_to_keep) mod min_removal_threshold))
               (images_of blocks) \<and>
           map non_images_of blocks' = map non_images_of blocks \<and>
           length blocks' = length blocks"
proof -
  let ?r = "(N - images_to_keep) - (N - images_to_keep) mod min_removal_threshold"
  let ?blocks' = "snd (prune_blocks ?r blocks)"
  have "images_of ?blocks' = drop (nat ?r) (images_of blocks)"
    by (rule prune_blocks_images)
  moreover have "map non_images_of ?blocks' = map non_images_of blocks"
    by (rule prune_blocks_others)
  moreover have "length ?blocks' = length blocks"
    by (rule prune_blocks_length)
  moreover note pruning_call[OF assms, of images_to_keep] pruning_blocks[OF assms(1), of ?r]
  ultimately show ?thesis by blast
qed

text \<open>
  In the example log (7 images after a text item, then 5 images before a text item),
  keeping 1 removes the 10 oldest images: the first tool result keeps its text only, the
  second its last 2 images and its text.
\<close>

theorem prune_drops_oldest_images_only_witness:
  "tool_result_blocks example_log =
     Inr [example_tool_result (example_text # replicate 7 example_image),
          example_tool_result (replicate 5 example_image @ [example_text])] \<and>
   total_images [example_tool_result (example_text # replicate 7 example_image),
          example_tool_result (replicate 5 example_image @ [example_text])] = Inr 12 \<and>
   (10::int) \<noteq> 0 \<and>
   (\<exists>messages' blocks'.
      maybe_filter_to_n_most_recent_images example_log (Some 1) 10 = Inr messages' \<and>
      tool_result_blocks messages' = Inr blocks' \<and>
      images_of blocks' = [example_image, example_image] \<and>
      map non_images_of blocks' = [[example_text], [example_text]] \<and>
      length blocks' = 2)"
proof -
  have ten: "(10::int) \<noteq> 0" by simp
  have imgs: "images_of [example_tool_result (example_text # replicate 7 example_image),
          example_tool_result (replicate 5 example_image @ [example_text])] = replicate 12 example_image"
    by (simp add: images_of_def block_contents_def example_tool_result_def dict_get_def
          is_image_def isinstance_dict_def example_image_def example_text_def
          replicate_add[symmetric] del: replicate_add)
  have others: "map non_images_of [example_tool_result (example_text # replicate 7 example_image),
          example_tool_result (replicate 5 example_image @ [example_text])] = [[example_text], [example_text]]"
    by (simp add: non_images_of_def block_contents_def example_tool_result_def dict_get_def
          is_image_def isinstance_dict_def example_image_def example_text_def)
  show ?thesis
    using prune_drops_oldest_images_only[OF example_log_blocks example_log_total ten, of 1]
      example_log_blocks example_log_total imgs others
    by (simp add: numeral_eq_Suc)
qed

section \<open>History filter: properties\<close>

lemma filter_loop_acc:
  "filter_loop msgs acc = (fst (filter_loop msgs []), acc @ snd (filter_loop msgs []))"
proof (induction msgs arbitrary: acc)
  case Nil
  then show ?case by simp
next
  case (Cons m msgs)
  show ?case
  proof (cases "filter_message m")
    case (Inl e)
    then show ?thesis by simp
  next
    case (Inr r)
    obtain m' out where r: "r = (m', out)" by (cases r)
    show ?thesis
      using Cons.IH[of "acc @ out"] Cons.IH[of out]
      by (simp add: Inr r split_beta)
  qed
qed

lemma filter_loop_no_raise:
  "list_all (\<lambda>m. \<not> raises m) msgs \<Longrightarrow>
   filter_loop msgs [] = (map left_as msgs, concat (map kept_text msgs))"
proof (induction msgs)
  case Nil
  then show ?case by simp
next
  case (Cons m msgs)
  from Cons.prems obtain m' out where r: "filter_message m = Inr (m', out)"
    by (cases "filter_message m") (auto simp: raises_def)
  have rest: "filter_loop msgs [] = (map left_as msgs, concat (map kept_text msgs))"
    using Cons by simp
  have m: "left_as m = m'" "kept_text m = out" by (simp_all add: left_as_def kept_text_def r)
  show ?case
    using filter_loop_acc[of msgs out]
    by (simp add: r rest m)
qed

lemma filter_loop_append:
  "list_all (\<lambda>m. \<not> raises m) pre \<Longrightarrow>
   filter_loop (pre @ post) [] =
     (map left_as pre @ fst (filter_loop post []),
      concat (map kept_text pre) @ snd (filter_loop post []))"
proof (induction pre)
  case Nil
  then show ?case by simp
next
  case (Cons m pre)
  from Cons.prems obtain m' out where r: "filter_message m = Inr (m', out)"
    by (cases "filter_message m") (auto simp: raises_def)
  have rest: "filter_loop (pre @ post) [] =
     (map left_as pre @ fst (filter_loop post []),
      concat (map kept_text pre) @ snd (filter_loop post []))"
    using Cons by simp
  have m: "left_as m = m'" "kept_text m = out" by (simp_all add: left_as_def kept_text_def r)
  show ?case
    using filter_loop_acc[of "pre @ post" out]
    by (simp add: r rest m)
qed

lemma filter_loop_raise: "raises bad \<Longrightarrow> filter_loop (bad # post) [] = (bad # post, [])"
  by (cases "filter_message bad") (auto simp: raises_def)

text \<open>
  Claim C2, as the code has it. The filter never raises, but it does not complete the
  pass after an error: when the body raises on a message, the loop is left. The messages
  before the failing one are handled (each left as the body leaves it, its text kept when
  it is a plain user text); the failing message and all messages after it stay untouched
  and contribute nothing to the returned list. A log on which no message raises is
  handled as a whole.
\<close>

theorem filter_stops_at_first_error:
  assumes "list_all (\<lambda>m. \<not> raises m) before" and "raises bad"
  shows "message_filter_callback (before @ bad # after) =
           (map left_as before @ bad # after, concat (map kept_text before)) \<and>
         message_filter_callback before = (map left_as before, concat (map kept_text before))"
  using assms
  by (simp add: message_filter_callback_def filter_loop_append filter_loop_raise
        filter_loop_no_raise del: filter_loop.simps)

lemma ex_bad: "filter_message empty_user_message = Inl IndexError"
  by (simp add: filter_message_def empty_user_message_def)

lemma ex_good: "filter_message plain_user_message =
   Inr (PDict [(''role'', PStr ''user''), (''content'', PList [PStr ''open settings''])], [PStr ''open settings''])"
  by (simp add: filter_message_def plain_user_message_def dict_set_def)

lemma plain_not_raises: "\<not> raises plain_user_message"
  by (simp add: raises_def ex_good)

lemma plain_kept: "kept_text plain_user_message = [PStr ''open settings'']"
  by (simp add: kept_text_def ex_good)

lemma plain_left_as:
  "left_as plain_user_message =
     PDict [(''role'', PStr ''user''), (''content'', PList [PStr ''open settings''])]"
  by (simp add: left_as_def ex_good)

lemma empty_raises: "raises empty_user_message"
  by (simp add: raises_def ex_bad)

text \<open>
  A user text, then a user message with an empty content list (indexing it raises
  \<open>IndexError\<close>), then the same user text again: only the first text is returned.
\<close>

theorem filter_stops_at_first_error_witness:
  "list_all (\<lambda>m. \<not> raises m) [plain_user_message] \<and> raises empty_user_message \<and>
   message_filter_callback ([plain_user_message] @ empty_user_message # [plain_user_message]) =
     ([PDict [(''role'', PStr ''user''), (''content'', PList [PStr ''open settings''])],
       empty_user_message, plain_user_message],
      [PStr ''open settings''])"
proof -
  have h1: "list_all (\<lambda>m. \<not> raises m) [plain_user_message]"
    by (simp add: plain_not_raises)
  show ?thesis
    using filter_stops_at_first_error[OF h1 empty_raises, of "[plain_user_message]"] h1
    by (simp add: empty_raises plain_kept plain_left_as)
qed

text \<open>
  Claim C2 as stated fails: the message after the failing one is a plain user text, it is
  handled without error on its own, and yet it is not in the returned list.
\<close>

theorem filter_drops_messages_after_error:
  "raises empty_user_message \<and> kept_text plain_user_message = [PStr ''open settings''] \<and>
   snd (message_filter_callback [empty_user_message, plain_user_message]) = []"
  by (simp add: raises_def kept_text_def ex_bad ex_good message_filter_callback_def)

lemma filter_message_out_str:
  "filter_message m = Inr (m', out) \<Longrightarrow> list_all (\<lambda>v. \<exists>s. v = PStr s) out"
  by (auto simp: filter_message_def split: pyval.splits if_splits option.splits list.splits)

lemma filter_loop_out_str:
  "list_all (\<lambda>v. \<exists>s. v = PStr s) (snd (filter_loop msgs []))"
proof (induction msgs)
  case Nil
  then show ?case by simp
next
  case (Cons m msgs)
  show ?case
  proof (cases "filter_message m")
    case (Inl e)
    then show ?thesis by simp
  next
    case (Inr r)
    obtain m' out where r: "r = (m', out)" by (cases r)
    from Inr r have "list_all (\<lambda>v. \<exists>s. v = PStr s) out" by (auto dest: filter_message_out_str)
    then show ?thesis
      using Cons.IH filter_loop_acc[of msgs out] by (simp add: Inr r)
  qed
qed

lemma filter_loop_strings:
  "list_all (\<lambda>v. \<exists>s. v = PStr s) strs \<Longrightarrow> filter_loop strs [] = (strs, [])"
  by (cases strs) (auto simp: filter_message_def)

lemma filter_message_again:
  "filter_message m = Inr (m', out) \<Longrightarrow> filter_message m' = Inr (m', out)"
  by (auto simp: filter_message_def dict_set_def update_conv' 
        split: pyval.splits if_splits option.splits list.splits)

lemma filter_loop_again:
  "filter_loop (fst (filter_loop msgs [])) [] = filter_loop msgs []"
proof (induction msgs)
  case Nil
  then show ?case by simp
next
  case (Cons m msgs)
  show ?case
  proof (cases "filter_message m")
    case (Inl e)
    then show ?thesis by simp
  next
    case (Inr r)
    obtain m' out where r: "r = (m', out)" by (cases r)
    from Inr r have again: "filter_message m' = Inr (m', out)" by (auto dest: filter_message_again)
    have a: "filter_loop msgs out = (fst (filter_loop msgs []), out @ snd (filter_loop msgs []))"
      by (rule filter_loop_acc)
    have b: "filter_loop (fst (filter_loop msgs [])) out =
       (fst (filter_loop msgs []), out @ snd (filter_loop msgs []))"
      using filter_loop_acc[of "fst (filter_loop msgs [])" out] Cons.IH by simp
    show ?thesis
      by (simp add: Inr r a again b)
  qed
qed

text \<open>
  Claim C3, as the code has it. The filter returns a list of strings, and a string is not
  a message the filter can read (\<open>msg.get\<close> raises on the first one), so the filter applied
  to its own output returns the empty list: \<open>filter(filter(log)) = filter(log)\<close> holds
  only when \<open>filter(log)\<close> is empty. What is idempotent is a second pass over the log
  itself: run again on the log as the first pass left it, the filter returns the same
  list and leaves the log as it is.
\<close>

theorem filter_of_output_is_empty:
  "snd (message_filter_callback (snd (message_filter_callback messages))) = [] \<and>
   message_filter_callback (fst (message_filter_callback messages)) =
     message_filter_callback messages"
  using filter_loop_strings[OF filter_loop_out_str[of messages]]
  by (simp add: message_filter_callback_def filter_loop_again)

text \<open>
  Claim C3 as stated fails: one user text is kept by the filter, and the filter applied
  to that result returns nothing.
\<close>

theorem filter_not_idempotent_on_output:
  "snd (message_filter_callback [plain_user_message]) = [PStr ''open settings''] \<and>
   snd (message_filter_callback (snd (message_filter_callback [plain_user_message]))) = []"
proof -
  have once: "snd (message_filter_callback [plain_user_message]) = [PStr ''open settings'']"
    by (simp add: message_filter_callback_def ex_good)
  have twice: "snd (message_filter_callback [PStr ''open settings'']) = []"
    by (simp add: message_filter_callback_def filter_message_def)
  show ?thesis by (simp add: once twice)
qed

section \<open>The planner call: properties\<close>

lemma filter_message_wraps:
  "filter_message m = Inr (m', out) \<Longrightarrow> left_or_wrapped m m'"
  by (auto simp: filter_message_def left_or_wrapped_def wrap_content_def is_user_def
        isinstance_dict_def isinstance_list_def dict_get_def dict_set_def
        split: pyval.splits if_splits option.splits list.splits)

lemma filter_loop_wraps:
  "list_all2 left_or_wrapped msgs (fst (filter_loop msgs acc))"
proof (induction msgs arbitrary: acc)
  case Nil
  then show ?case by simp
next
  case (Cons m msgs)
  have refl: "\<And>xs. list_all2 left_or_wrapped xs xs"
    by (simp add: list_all2_same left_or_wrapped_def)
  show ?case
  proof (cases "filter_message m")
    case (Inl e)
    then show ?thesis using refl[of "m # msgs"] by (simp del: list_all2_Cons)
  next
    case (Inr r)
    obtain m' out where r: "r = (m', out)" by (cases r)
    from Inr r have "left_or_wrapped m m'" by (auto dest: filter_message_wraps)
    then show ?thesis using Cons.IH[of "acc @ out"] by (simp add: Inr r split_beta)
  qed
qed

lemma log_after_call:
  "log_after (call h w self messages) = fst (message_filter_callback messages)"
  by (simp add: call_def split_beta split: sum.splits)

lemma filtered_strings:
  "list_all (\<lambda>v. \<exists>s. v = PStr s) (snd (message_filter_callback messages))"
  by (simp add: message_filter_callback_def filter_loop_out_str)

lemma prune_strings:
  "list_all (\<lambda>v. \<exists>s. v = PStr s) strs \<Longrightarrow>
   maybe_filter_to_n_most_recent_images strs (Some n) 10 = (if strs = [] then Inr [] else Inl TypeError)"
  by (cases strs)
     (auto simp: maybe_filter_to_n_most_recent_images_def message_items_def subscript_content_def)

text \<open>
  Claim C5, as the code has it. The planner changes the log in one way only, and it is
  not the pruning: the history filter replaces the content of a user message that is not
  a list by the one-element list holding it (\<open>msg["content"] = [msg["content"]]\<close>).
  Whatever the outcome of the call, the log it leaves is the log the filter leaves, and
  each message of it is the former message or, for a user message, the former message
  with its content wrapped; a message whose content is a list is unchanged. The pruning
  runs on the filtered list of strings, never on the log, so no image and no text item
  is removed from the log.
\<close>

theorem planner_only_wraps_user_content:
  "log_after (call h w self messages) = fst (message_filter_callback messages) \<and>
   list_all2 left_or_wrapped messages (log_after (call h w self messages))"
  using filter_loop_wraps[of messages "[]"]
  by (simp add: log_after_call message_filter_callback_def)

text \<open>
  Claim C5 as stated fails: after a call on a log with one user message whose content is
  a plain string, the message's content is a list.
\<close>

theorem planner_mutates_log:
  "log_after (call modelled_helpers example_world (example_planner OPENAI ''sk'' None) [plain_user_message])
     = [PDict [(''role'', PStr ''user''), (''content'', PList [PStr ''open settings''])]] \<and>
   plain_user_message = PDict [(''role'', PStr ''user''), (''content'', PStr ''open settings'')]"
  by (simp add: log_after_call message_filter_callback_def ex_good plain_user_message_def[symmetric])

lemma prune_stage_zero:
  "only_n_most_recent_images self = Some 0 \<Longrightarrow> prune_stage self pm = Inr pm"
  by (simp add: prune_stage_def)







lemma call_ssh_usage:
  "provider self = SSH \<Longrightarrow> planner_after (call h w self messages) = self"
  by (auto simp: call_def dispatch_def split_beta split: sum.splits)

text \<open>
  Claim C10. With \<open>only_n_most_recent_images = 0\<close> the truth test of the guard fails and
  the pruning stage is skipped: the filtered messages pass on as they are, and the log
  the call leaves is the log the filter leaves, in which every message is the former one
  or a user message with its non-list content wrapped. No image is removed, however many
  the log holds.
\<close>

theorem zero_images_to_keep_skips_pruning:
  assumes "only_n_most_recent_images self = Some 0"
  shows "prune_stage self planner_messages = Inr planner_messages \<and>
         log_after (call h w self messages) = fst (message_filter_callback messages) \<and>
         list_all2 left_or_wrapped messages (log_after (call h w self messages))"
  using assms filter_loop_wraps[of messages "[]"]
  by (simp add: prune_stage_zero log_after_call message_filter_callback_def)

lemma example_log_filter:
  "message_filter_callback example_log = (example_log, [PStr ''open settings''])"
  by (simp add: message_filter_callback_def example_log_def filter_message_def
        example_tool_result_def)

text \<open>
  For contrast: called directly with \<open>images_to_keep = 0\<close>, the pruning function removes
  10 of the 12 images of the example log.
\<close>

lemma example_log_direct_prune:
  "\<exists>messages' blocks'.
      maybe_filter_to_n_most_recent_images example_log (Some 0) 10 = Inr messages' \<and>
      tool_result_blocks messages' = Inr blocks' \<and> total_images blocks' = Inr 2"
proof -
  have ten: "(10::int) \<noteq> 0" by simp
  have imgs: "length (images_of [example_tool_result (example_text # replicate 7 example_image),
          example_tool_result (replicate 5 example_image @ [example_text])]) = 12"
    by (simp add: images_of_def block_contents_def example_tool_result_def dict_get_def
          is_image_def isinstance_dict_def example_image_def example_text_def)
  from pruning_total[OF example_log_total, of 10]
  have "total_images (snd (prune_blocks 10 [example_tool_result (example_text # replicate 7 example_image),
          example_tool_result (replicate 5 example_image @ [example_text])])) = Inr 2"
    by (simp add: imgs)
  with pruning_call[OF example_log_blocks example_log_total ten, of 0]
    pruning_blocks[OF example_log_blocks, of 10]
  show ?thesis by simp
qed

text \<open>A planner with \<open>only_n_most_recent_images = 0\<close> on the example log of 12 images.\<close>

theorem zero_images_to_keep_skips_pruning_witness:
  "only_n_most_recent_images (example_planner OPENAI ''sk'' (Some 0)) = Some 0 \<and>
   prune_stage (example_planner OPENAI ''sk'' (Some 0)) [PStr ''open settings''] =
     Inr [PStr ''open settings''] \<and>
   log_after (call modelled_helpers example_world (example_planner OPENAI ''sk'' (Some 0)) example_log)
     = example_log \<and>
   list_all2 left_or_wrapped example_log
     (log_after (call modelled_helpers example_world (example_planner OPENAI ''sk'' (Some 0)) example_log))"
proof -
  have h: "only_n_most_recent_images (example_planner OPENAI ''sk'' (Some 0)) = Some 0"
    by (simp add: example_planner_def)
  note t = zero_images_to_keep_skips_pruning[OF h, of "[PStr ''open settings'']"
        modelled_helpers example_world example_log]
  from t have a: "prune_stage (example_planner OPENAI ''sk'' (Some 0)) [PStr ''open settings''] =
     Inr [PStr ''open settings'']" by blast
  from t have b: "log_after (call modelled_helpers example_world
      (example_planner OPENAI ''sk'' (Some 0)) example_log) = example_log"
    by (simp add: example_log_filter)
  from t have c: "list_all2 left_or_wrapped example_log
     (log_after (call modelled_helpers example_world (example_planner OPENAI ''sk'' (Some 0)) example_log))"
    by blast
  from h a b c show ?thesis by blast
qed

text \<open>
  A user text with string content and a user message on which the filter raises: the
  first is wrapped, the second is left as it is.
\<close>

theorem planner_only_wraps_user_content_witness:
  "log_after (call modelled_helpers example_world (example_planner OPENAI ''sk'' None)
       [plain_user_message, empty_user_message]) =
     [PDict [(''role'', PStr ''user''), (''content'', PList [PStr ''open settings''])],
      empty_user_message] \<and>
   list_all2 left_or_wrapped [plain_user_message, empty_user_message]
     (log_after (call modelled_helpers example_world (example_planner OPENAI ''sk'' None)
       [plain_user_message, empty_user_message]))"
proof -
  note t = planner_only_wraps_user_content[of modelled_helpers example_world
      "example_planner OPENAI ''sk'' None" "[plain_user_message, empty_user_message]"]
  have f: "fst (message_filter_callback [plain_user_message, empty_user_message]) =
     [PDict [(''role'', PStr ''user''), (''content'', PList [PStr ''open settings''])],
      empty_user_message]"
    by (simp add: message_filter_callback_def ex_good ex_bad)
  from t f show ?thesis by metis
qed





section \<open>Actor history, token usage and the summary: properties\<close>

lemma actor_session_history:
  "action_history (actor_session self calls) =
     action_history self @ history_lines (returned_outputs calls)"
proof (induction calls arbitrary: self)
  case Nil
  then show ?case by (simp add: history_lines_def)
next
  case (Cons c calls)
  show ?case
  proof (cases "snd c")
    case (Raises e)
    then show ?thesis using Cons.IH[of self] by (simp add: actor_call_def)
  next
    case (Content content)
    show ?thesis
    proof (cases content)
      case None
      with Content show ?thesis using Cons.IH[of self] by (simp add: actor_call_def)
    next
      case (Some output_text)
      with Content show ?thesis
        using Cons.IH[of "self\<lparr>action_history := action_history self @ output_text @ [CHR 0x0A]\<rparr>"]
        by (simp add: actor_call_def history_lines_def)
    qed
  qed
qed

lemma returned_outputs_answered: "returned_outputs (answered calls) = map snd calls"
  by (induction calls) (simp_all add: answered_def)

lemma returned_outputs_length: "length (returned_outputs calls) \<le> length calls"
  by (induction calls) (auto split: completion.splits option.splits)

text \<open>
  Claim C9, as the code has it. The history is appended to after the request has
  returned, so it holds one line for every call that returned a model output string and
  nothing for a call that raised or whose content was \<open>None\<close>: after the calls of a
  session the history is the former history (empty for a fresh actor) followed by the
  returned outputs in call order, each followed by a newline. There are at most as many
  lines as calls, and exactly one per call when every call returned a string. One call
  appends its output and a newline when it returns a string and leaves the history as it
  was otherwise; the history is never truncated.
\<close>

theorem action_history_holds_returned_outputs:
  "action_history (actor_session self calls) =
     action_history self @ history_lines (returned_outputs calls) \<and>
   action_history (actor_session (actor_init url name screen split_name prompt) calls) =
     history_lines (returned_outputs calls) \<and>
   length (returned_outputs calls) \<le> length calls \<and>
   returned_outputs (answered answered_calls) = map snd answered_calls \<and>
   action_history (fst (actor_call self task (Content (Some output_text)))) =
     action_history self @ output_text @ [CHR 0x0A] \<and>
   action_history (fst (actor_call self task (Content None))) = action_history self \<and>
   action_history (fst (actor_call self task (Raises e))) = action_history self"
  using actor_session_history[of self calls]
    actor_session_history[of "actor_init url name screen split_name prompt" calls]
    returned_outputs_length[of calls] returned_outputs_answered[of answered_calls]
  by (simp add: actor_init_def actor_call_def)

text \<open>
  Claim C9 as stated fails: of three calls on a fresh actor the second raises; the first
  and the third return \<open>a1\<close> and \<open>a2\<close>. After the three calls the history holds two
  lines, not three.
\<close>

theorem action_history_skips_failed_call:
  "length example_session = 3 \<and>
   action_history (actor_session example_actor example_session) =
     ''a1'' @ [CHR 0x0A] @ ''a2'' @ [CHR 0x0A] \<and>
   length (filter (\<lambda>c. c = CHR 0x0A) (action_history (actor_session example_actor example_session))) = 2"
  by (simp add: example_session_def example_actor_def actor_init_def actor_call_def)

text \<open>
  Claim C4 fails on the SSH branch. The backend answers with 7 tokens and the call
  completes, yet the counter of the SSH planner is 0 as before; the same call through
  the OpenAI branch counts the 7 tokens.
\<close>

theorem ssh_call_leaves_token_usage:
  "backend_reply example_world = Inr (example_response, 7) \<and>
   outcome (call modelled_helpers example_world (example_planner SSH ''localhost:8000'' None)
       [plain_user_message]) = Inr example_json_text \<and>
   total_token_usage (example_planner SSH ''localhost:8000'' None) = 0 \<and>
   total_token_usage (planner_after (call modelled_helpers example_world
       (example_planner SSH ''localhost:8000'' None) [plain_user_message])) = 0 \<and>
   total_token_usage (planner_after (call modelled_helpers example_world
       (example_planner OPENAI ''localhost:8000'' None) [plain_user_message])) = 7"
  by code_simp

lemma ex_extract: "extract_data example_response ''json'' = Inr example_json_text"
  by code_simp

lemma ex_loads:
  "json_loads example_json_text =
     Inr (JObj [(''Thinking'', JStr ''t''),
                (''Next Action'', JStr (''CLICK '' @ [CHR 0x27] @ ''ok'' @ [CHR 0x27]))])"
  by code_simp

lemma ex_summarise:
  "summarise modelled_helpers w example_response =
     ([OutputCallback (colorful_text_vlm w @ '':'' @ [CHR 0x0A] @ example_summary)],
      Inr example_json_text)"
  by (simp add: summarise_def modelled_helpers_def ex_extract ex_loads json_items_def py_str_def
        example_summary_def)

lemma summarise_no_object:
  "first_object raw = None \<Longrightarrow> summarise modelled_helpers w raw = ([], Inl ParseError)"
  by (simp add: summarise_def modelled_helpers_def extract_data_def)

lemma summarise_returns_extracted:
  "summarise h w raw = (evs, Inr js) \<Longrightarrow> extract_data_fn h raw ''json'' = Inr js"
  by (auto simp: summarise_def split: sum.splits)

lemma plan_str_lines:
  "list_all (\<lambda>kv. py_str (snd kv) \<noteq> None) items \<Longrightarrow>
   plan_str items acc = Inr (acc @ concat (map summary_line items))"
  by (induction items arbitrary: acc) (auto simp: summary_line_def)

lemma call_summary:
  assumes "prune_stage self (snd (message_filter_callback messages)) = Inr pm"
      and "dispatch w self (pm @ [PStr (screenshot_path w)]) = (evs, self', Inr raw)"
  shows "outcome (call h w self messages) = snd (summarise h w raw)"
    and "events (call h w self messages) = screenshot_events w self @ evs @ fst (summarise h w raw)"
  using assms by (simp_all add: call_def split_beta)

lemma ex_call_summary:
  "outcome (call modelled_helpers example_world (example_planner OPENAI ''sk'' None)
     [plain_user_message]) = Inr example_json_text \<and>
   last (events (call modelled_helpers example_world (example_planner OPENAI ''sk'' None)
     [plain_user_message])) = OutputCallback (''VLMPlanner:'' @ [CHR 0x0A] @ example_summary)"
  by code_simp

text \<open>
  Claim C8. On the response of the claim, a JSON object wrapped in prose and a code
  fence, the extraction gives the text of the embedded object; the last stage of the
  call returns that text unchanged and sends the observer the summary with the
  \<open>Thinking\<close> value bare and \<open>Next Action: CLICK 'ok'\<close> on a line of its own. In
  general, what the stage returns is what the extraction returned, the summary is the
  concatenation of one piece per key (the bare value for \<open>Thinking\<close>, a newline and
  \<open>key: value\<close> for every other key), and a response in which no JSON object is found
  ends the turn with a parse error.
\<close>

theorem planner_extracts_json_and_summarises:
  "extract_data example_response ''json'' = Inr example_json_text \<and>
   summarise modelled_helpers w example_response =
     ([OutputCallback (colorful_text_vlm w @ '':'' @ [CHR 0x0A] @ example_summary)],
      Inr example_json_text) \<and>
   outcome (call modelled_helpers example_world (example_planner OPENAI ''sk'' None)
     [plain_user_message]) = Inr example_json_text \<and>
   last (events (call modelled_helpers example_world (example_planner OPENAI ''sk'' None)
     [plain_user_message])) = OutputCallback (''VLMPlanner:'' @ [CHR 0x0A] @ example_summary) \<and>
   (summarise h w raw = (evs, Inr js) \<longrightarrow> extract_data_fn h raw ''json'' = Inr js) \<and>
   (list_all (\<lambda>kv. py_str (snd kv) \<noteq> None) items \<longrightarrow>
      plan_str items acc = Inr (acc @ concat (map summary_line items))) \<and>
   (first_object raw' = None \<longrightarrow> summarise modelled_helpers w raw' = ([], Inl ParseError))"
  using ex_extract ex_summarise[of w] ex_call_summary summarise_returns_extracted[of h w raw evs js]
    plan_str_lines[of items acc] summarise_no_object[of raw' w]
  by blast

lemma no_object_example: "first_object ''no json {here} at all'' = None"
  by code_simp

lemma example_items_print:
  "list_all (\<lambda>kv. py_str (snd kv) \<noteq> None)
     [(''Thinking'', JStr ''t''), (''Next Action'', JStr ''CLICK now'')]"
  by (simp add: py_str_def)

text \<open>
  The general parts at concrete inputs: the response of the claim, a two-key object, and
  a response that holds braces but no JSON object.
\<close>

theorem planner_extracts_json_and_summarises_witness:
  "summarise modelled_helpers example_world example_response =
     ([OutputCallback (''VLMPlanner:'' @ [CHR 0x0A] @ example_summary)], Inr example_json_text) \<and>
   extract_data_fn modelled_helpers example_response ''json'' = Inr example_json_text \<and>
   list_all (\<lambda>kv. py_str (snd kv) \<noteq> None)
     [(''Thinking'', JStr ''t''), (''Next Action'', JStr ''CLICK now'')] \<and>
   plan_str [(''Thinking'', JStr ''t''), (''Next Action'', JStr ''CLICK now'')] [] =
     Inr (''t'' @ [CHR 0x0A] @ ''Next Action: CLICK now'') \<and>
   first_object ''no json {here} at all'' = None \<and>
   summarise modelled_helpers example_world ''no json {here} at all'' = ([], Inl ParseError)"
proof -
  note t = planner_extracts_json_and_summarises[of example_world modelled_helpers example_response
      "[OutputCallback (''VLMPlanner:'' @ [CHR 0x0A] @ example_summary)]" example_json_text
      "[(''Thinking'', JStr ''t''), (''Next Action'', JStr ''CLICK now'')]" "[]"
      "''no json {here} at all''"]
  have cw: "colorful_text_vlm example_world = ''VLMPlanner''" by (simp add: example_world_def)
  from t cw have a: "summarise modelled_helpers example_world example_response =
     ([OutputCallback (''VLMPlanner:'' @ [CHR 0x0A] @ example_summary)], Inr example_json_text)"
    by simp
  from t a have b: "extract_data_fn modelled_helpers example_response ''json'' = Inr example_json_text"
    by blast
  from t example_items_print have
    "plan_str [(''Thinking'', JStr ''t''), (''Next Action'', JStr ''CLICK now'')] [] =
       Inr ([] @ concat (map summary_line [(''Thinking'', JStr ''t''), (''Next Action'', JStr ''CLICK now'')]))"
    by blast
  then have c: "plan_str [(''Thinking'', JStr ''t''), (''Next Action'', JStr ''CLICK now'')] [] =
     Inr (''t'' @ [CHR 0x0A] @ ''Next Action: CLICK now'')"
    by (simp add: summary_line_def py_str_def)
  from t no_object_example have d:
    "summarise modelled_helpers example_world ''no json {here} at all'' = ([], Inl ParseError)"
    by blast
  from a b c d example_items_print no_object_example show ?thesis by blast
qed

text \<open>
  The example session on a fresh actor, and two calls that both return a string.
\<close>

theorem action_history_holds_returned_outputs_witness:
  "action_history (actor_session (actor_init ''http://localhost:1234/v1'' ''showui-2b'' 0 ''desktop'' ''nav'')
      example_session) = history_lines [''a1'', ''a2''] \<and>
   returned_outputs (answered [(''CLICK ok'', ''a1''), (''ENTER'', ''a2'')]) = [''a1'', ''a2'']"
proof -
  note t = action_history_holds_returned_outputs[of example_actor example_session
      "''http://localhost:1234/v1''" "''showui-2b''" 0 "''desktop''" "''nav''"
      "[(''CLICK ok'', ''a1''), (''ENTER'', ''a2'')]" "''ENTER''" "''a1''" "ExternalError ''timeout''"]
  have r: "returned_outputs example_session = [''a1'', ''a2'']"
    by (simp add: example_session_def)
  from t r show ?thesis by simp
qed

end
